theory Spec2Isabelle
  imports Main
begin

section \<open>The GitHub service of go-neb: reference matching, expansion, webhook routing\<close>

text \<open>
  The development follows \<^verbatim>\<open>services/github/github.go\<close>. Go strings are byte
  sequences, modelled as \<^typ>\<open>string\<close>; Go's \<^verbatim>\<open>int\<close> is a signed integer of
  \<^verbatim>\<open>strconv.IntSize\<close> bits (32 or 64 by platform), modelled as \<^typ>\<open>int\<close> with the
  range check of the parser written out and the width passed as \<open>intSize\<close>.
\<close>

subsection \<open>Errors\<close>

datatype num_err = ErrSyntax | ErrRange

datatype error =
    Errorf string                \<comment> \<open>\<^verbatim>\<open>fmt.Errorf\<close>: an error that carries its message\<close>
  | NumError string num_err      \<comment> \<open>\<^verbatim>\<open>strconv.NumError\<close>: the offending text and the cause\<close>
  | RemoteError string           \<comment> \<open>an error reported by an external collaborator\<close>

subsection \<open>The pattern \<^verbatim>\<open>([A-z0-9-_]+)/([A-z0-9-_]+)#([0-9]+)\<close>\<close>

text \<open>
  A character class is the list of its ranges, in the order the pattern writes them. In
  \<^verbatim>\<open>[A-z0-9-_]\<close> the parser reads the range \<^verbatim>\<open>A-z\<close>, the range \<^verbatim>\<open>0-9\<close>, then
  the single characters \<^verbatim>\<open>-\<close> and \<^verbatim>\<open>_\<close> (a hyphen that follows a complete range
  is a literal). The classes hold ASCII bytes only, so matching bytes and matching UTF-8
  runes agree: every byte of a multi-byte rune is at least 0x80 and lies in no range.
\<close>

type_synonym char_class = "(char \<times> char) list"

definition in_class :: "char_class \<Rightarrow> char \<Rightarrow> bool" where
  "in_class cls c =
     list_ex (\<lambda>(lo, hi). (of_char lo :: nat) \<le> of_char c \<and> (of_char c :: nat) \<le> of_char hi) cls"

datatype regex_item =
    Literal char                 \<comment> \<open>one literal byte\<close>
  | CapturePlus char_class       \<comment> \<open>a capturing group \<^verbatim>\<open>([...]+)\<close>: one or more, greedy\<close>

definition ownerRepoClass :: char_class where
  "ownerRepoClass =
     [(CHR ''A'', CHR ''z''), (CHR ''0'', CHR ''9''), (CHR ''-'', CHR ''-''), (CHR ''_'', CHR ''_'')]"

definition numberClass :: char_class where
  "numberClass = [(CHR ''0'', CHR ''9'')]"

definition ownerRepoIssueRegex :: "regex_item list" where
  "ownerRepoIssueRegex =
     [CapturePlus ownerRepoClass, Literal CHR ''/'',
      CapturePlus ownerRepoClass, Literal CHR ''#'',
      CapturePlus numberClass]"

text \<open>
  The matcher is the backtracking reading of the pattern, which is the leftmost-first
  semantics of Go's \<^verbatim>\<open>regexp\<close> package: a greedy repetition tries its longest run
  first and gives characters back one at a time; the search tries start positions from
  the left. \<open>first_some\<close> is the first alternative that succeeds.
\<close>

fun first_some :: "('a \<Rightarrow> 'b option) \<Rightarrow> 'a list \<Rightarrow> 'b option" where
  "first_some f [] = None"
| "first_some f (x # xs) = (case f x of Some y \<Rightarrow> Some y | None \<Rightarrow> first_some f xs)"

fun match_here :: "regex_item list \<Rightarrow> string \<Rightarrow> (string list \<times> string) option" where
  "match_here [] s = Some ([], s)"
| "match_here (Literal c # ps) s =
     (case s of
        [] \<Rightarrow> None
      | x # xs \<Rightarrow> if x = c then match_here ps xs else None)"
| "match_here (CapturePlus cls # ps) s =
     first_some
       (\<lambda>n. case match_here ps (drop n s) of
              None \<Rightarrow> None
            | Some (groups, rest) \<Rightarrow> Some (take n s # groups, rest))
       (rev [1 ..< Suc (length (takeWhile (in_class cls) s))])"

text \<open>
  \<open>match_here\<close> returns the captured groups and the unconsumed rest of the text.
  \<open>FindStringSubmatch\<close> is the leftmost match: the matched text followed by the groups,
  or the empty slice (Go's \<^verbatim>\<open>nil\<close>) when nothing matches.
\<close>

fun FindStringSubmatch :: "regex_item list \<Rightarrow> string \<Rightarrow> string list" where
  "FindStringSubmatch re s =
     (case match_here re s of
        Some (groups, rest) \<Rightarrow> take (length s - length rest) s # groups
      | None \<Rightarrow> (case s of [] \<Rightarrow> [] | x # xs \<Rightarrow> FindStringSubmatch re xs))"

subsection \<open>\<^verbatim>\<open>strconv.Atoi\<close>\<close>

definition is_digit :: "char \<Rightarrow> bool" where
  "is_digit c \<longleftrightarrow> (of_char CHR ''0'' :: nat) \<le> of_char c \<and> (of_char c :: nat) \<le> of_char CHR ''9''"

definition digit_value :: "char \<Rightarrow> int" where
  "digit_value c = int (of_char c) - int (of_char CHR ''0'')"

text \<open>
  The digit loop of \<^verbatim>\<open>ParseUint\<close> in base 10: the first byte that is no digit is a
  syntax error, and the first prefix whose value exceeds \<open>maxVal\<close> is a range error.
  The accumulator is an unsigned machine integer in the source; here it is an \<^typ>\<open>int\<close>
  that the range check keeps within \<open>0 .. maxVal\<close>.
\<close>

fun ParseUint_loop :: "int \<Rightarrow> int \<Rightarrow> string \<Rightarrow> num_err + int" where
  "ParseUint_loop maxVal n [] = Inr n"
| "ParseUint_loop maxVal n (c # cs) =
     (if \<not> is_digit c then Inl ErrSyntax
      else if n * 10 + digit_value c > maxVal then Inl ErrRange
      else ParseUint_loop maxVal (n * 10 + digit_value c) cs)"

definition ParseUint :: "nat \<Rightarrow> string \<Rightarrow> num_err + int" where
  "ParseUint bitSize s =
     (if s = [] then Inl ErrSyntax else ParseUint_loop (2 ^ bitSize - 1) 0 s)"

text \<open>
  \<^verbatim>\<open>ParseInt\<close> picks off a leading sign, converts the rest unsigned and checks the signed
  range; a range error of the unsigned conversion stays a range error. \<^verbatim>\<open>Atoi\<close> is
  \<^verbatim>\<open>ParseInt(s, 10, 0)\<close>, the width being that of \<^verbatim>\<open>int\<close>.
\<close>

definition Atoi :: "nat \<Rightarrow> string \<Rightarrow> error + int" where
  "Atoi intSize s =
     (case s of
        [] \<Rightarrow> Inl (NumError s ErrSyntax)
      | c # cs \<Rightarrow>
          (let neg = (c = CHR ''-'');
               body = (if c = CHR ''+'' \<or> c = CHR ''-'' then cs else s);
               cutoff = (2 :: int) ^ (intSize - 1)
           in case ParseUint intSize body of
                Inl ErrSyntax \<Rightarrow> Inl (NumError s ErrSyntax)
              | Inl ErrRange \<Rightarrow> Inl (NumError s ErrRange)
              | Inr un \<Rightarrow>
                  if \<not> neg \<and> un \<ge> cutoff then Inl (NumError s ErrRange)
                  else if neg \<and> un > cutoff then Inl (NumError s ErrRange)
                  else Inr (if neg then - un else un)))"

subsection \<open>\<^verbatim>\<open>ownerRepoNumberFromText\<close>\<close>

definition ownerRepoNumberFromText :: "nat \<Rightarrow> string \<Rightarrow> error + (string \<times> string \<times> int)" where
  "ownerRepoNumberFromText intSize ownerRepoNumberText =
     (let groups = FindStringSubmatch ownerRepoIssueRegex ownerRepoNumberText in
      if length groups \<noteq> 4 then
        Inl (Errorf (''No match found for '' @ [CHR 0x27] @ ownerRepoNumberText @ [CHR 0x27]))
      else
        (case Atoi intSize (groups ! 3) of
           Inl err \<Rightarrow> Inl err
         | Inr num \<Rightarrow> Inr (groups ! 1, groups ! 2, num)))"

subsection \<open>The expansion: \<^verbatim>\<open>Plugin(roomID).Expansions[0].Expand\<close>\<close>

text \<open>
  \<^verbatim>\<open>githubClient\<close> builds the API client. Its token source is \<^verbatim>\<open>nil\<close> (\<open>None\<close>) for
  the empty token, which gives the unauthenticated, rate-limited client.
\<close>

record github_client =
  tokenSource :: "string option"

definition githubClient :: "string \<Rightarrow> github_client" where
  "githubClient token = \<lparr>tokenSource = (if token \<noteq> '''' then Some token else None)\<rparr>"

text \<open>
  The fields of \<^verbatim>\<open>github.Issue\<close> are pointers; \<open>None\<close> is the \<^verbatim>\<open>nil\<close> pointer, whose
  dereference panics.
\<close>

record Issue =
  HTMLURL :: "string option"
  Title :: "string option"

record TextMessage =
  MsgType :: string
  Body :: string

datatype expand_event =
    IssuesGet github_client string string int     \<comment> \<open>the call \<^verbatim>\<open>cli.Issues.Get(owner, repo, num)\<close>\<close>
  | LogExtractFailed error string                 \<comment> \<open>"Failed to extract owner,repo,number from matched string"\<close>
  | LogFetchFailed error string string int        \<comment> \<open>"Failed to fetch issue"\<close>

datatype reply =
    nil                          \<comment> \<open>\<^verbatim>\<open>return nil\<close>\<close>
  | Notice TextMessage           \<comment> \<open>\<^verbatim>\<open>return &matrix.TextMessage{...}\<close>\<close>
  | NilDereference               \<comment> \<open>a panic at \<^verbatim>\<open>*i.HTMLURL\<close> or \<^verbatim>\<open>*i.Title\<close>\<close>

text \<open>
  The lookup \<^verbatim>\<open>cli.Issues.Get\<close> is a collaborator outside the repository and is a
  parameter. \<open>Expand\<close> returns what it did (the lookup call and the log records, in
  order) and what it returned.
\<close>

definition Expand ::
  "nat \<Rightarrow> (github_client \<Rightarrow> string \<Rightarrow> string \<Rightarrow> int \<Rightarrow> error + Issue) \<Rightarrow> string \<Rightarrow> string
    \<Rightarrow> expand_event list \<times> reply" where
  "Expand intSize Issues_Get roomID matchingText =
     (let cli = githubClient '''' in
      case ownerRepoNumberFromText intSize matchingText of
        Inl err \<Rightarrow> ([LogExtractFailed err matchingText], nil)
      | Inr (owner, repo, num) \<Rightarrow>
          (case Issues_Get cli owner repo num of
             Inl err \<Rightarrow>
               ([IssuesGet cli owner repo num, LogFetchFailed err owner repo num], nil)
           | Inr i \<Rightarrow>
               (case HTMLURL i of
                  None \<Rightarrow> ([IssuesGet cli owner repo num], NilDereference)
                | Some url \<Rightarrow>
                    (case Title i of
                       None \<Rightarrow> ([IssuesGet cli owner repo num], NilDereference)
                     | Some title \<Rightarrow>
                         ([IssuesGet cli owner repo num],
                          Notice \<lparr>MsgType = ''m.notice'', Body = url @ '' : '' @ title\<rparr>)))))"

subsection \<open>The webhook router: \<^verbatim>\<open>OnReceiveWebhook\<close>\<close>

record githubService =
  id' :: string
  UserID :: string
  Rooms :: "string \<rightharpoonup> string list"     \<comment> \<open>room_id => ["push","issue","pull_request"]\<close>

text \<open>
  \<^verbatim>\<open>range\<close> over a Go map visits every key once, in an order the language leaves open.
  The order is a parameter of the model: \<open>range_order m order\<close> says that \<open>order\<close> is one
  the runtime may choose, and \<open>range_map m order\<close> are the entries as the loop sees them.
\<close>

definition range_order :: "('k \<rightharpoonup> 'v) \<Rightarrow> 'k list \<Rightarrow> bool" where
  "range_order m order \<longleftrightarrow> distinct order \<and> set order = dom m"

fun range_map :: "('k \<rightharpoonup> 'v) \<Rightarrow> 'k list \<Rightarrow> ('k \<times> 'v) list" where
  "range_map m [] = []"
| "range_map m (k # ks) =
     (case m k of None \<Rightarrow> range_map m ks | Some v \<Rightarrow> (k, v) # range_map m ks)"

text \<open>The inner loop: scan the room's list until the event type is found.\<close>

fun notifyRoom :: "string \<Rightarrow> string list \<Rightarrow> bool" where
  "notifyRoom evType [] = False"
| "notifyRoom evType (notifyType # notif) =
     (if evType = notifyType then True else notifyRoom evType notif)"

record HTTPError =
  Code :: int

datatype ('repo, 'msg) webhook_event =
    LogSending string 'msg 'repo string     \<comment> \<open>"Sending notification to room": type, msg, repo, room_id\<close>
  | SendMessageEvent string string 'msg     \<comment> \<open>the call \<^verbatim>\<open>cli.SendMessageEvent(roomID, "m.room.message", msg)\<close>\<close>
  | LogSendFailed error string              \<comment> \<open>"Failed to send notification to room.": error, room_id\<close>

text \<open>
  The transport \<^verbatim>\<open>cli.SendMessageEvent\<close> is a collaborator outside the repository: a
  parameter that takes the state of the client and returns the error, if any, and the new
  state (the response it also returns is dropped by the caller). The outer loop runs over
  the entries of the table and collects what it does.
\<close>

fun notify_rooms ::
  "('cli \<Rightarrow> string \<Rightarrow> string \<Rightarrow> 'msg \<Rightarrow> error option \<times> 'cli) \<Rightarrow> string \<Rightarrow> 'repo \<Rightarrow> 'msg
    \<Rightarrow> (string \<times> string list) list \<Rightarrow> 'cli \<Rightarrow> ('repo, 'msg) webhook_event list \<times> 'cli" where
  "notify_rooms send evType repo msg [] cli = ([], cli)"
| "notify_rooms send evType repo msg ((roomID, notif) # rest) cli =
     (if notifyRoom evType notif then
        (case send cli roomID ''m.room.message'' msg of
           (e, cli') \<Rightarrow>
             (case notify_rooms send evType repo msg rest cli' of
                (later, cli'') \<Rightarrow>
                  ([LogSending evType msg repo roomID,
                    SendMessageEvent roomID ''m.room.message'' msg]
                   @ (case e of None \<Rightarrow> [] | Some err \<Rightarrow> [LogSendFailed err roomID])
                   @ later,
                   cli'')))
      else notify_rooms send evType repo msg rest cli)"

text \<open>
  The decoder \<^verbatim>\<open>webhook.OnReceiveRequest(req, "")\<close> is a parameter too. The result of the
  handler is the status written to the response, what the handler did, and the state of
  the client afterwards.
\<close>

record ('cli, 'repo, 'msg) webhook_result =
  status :: int
  trace :: "('repo, 'msg) webhook_event list"
  client :: 'cli

definition OnReceiveWebhook ::
  "githubService \<Rightarrow> string list \<Rightarrow> ('req \<Rightarrow> HTTPError + string \<times> 'repo \<times> 'msg)
    \<Rightarrow> ('cli \<Rightarrow> string \<Rightarrow> string \<Rightarrow> 'msg \<Rightarrow> error option \<times> 'cli) \<Rightarrow> 'req \<Rightarrow> 'cli
    \<Rightarrow> ('cli, 'repo, 'msg) webhook_result" where
  "OnReceiveWebhook s order OnReceiveRequest send req cli =
     (case OnReceiveRequest req of
        Inl err \<Rightarrow> \<lparr>status = Code err, trace = [], client = cli\<rparr>
      | Inr (evType, repo, msg) \<Rightarrow>
          (case notify_rooms send evType repo msg (range_map (Rooms s) order) cli of
             (events, cli') \<Rightarrow> \<lparr>status = 200, trace = events, client = cli'\<rparr>))"

subsection \<open>Observations used by the properties\<close>

text \<open>The delivery calls of a trace, in order: room, event type, message.\<close>

fun deliveries :: "('repo, 'msg) webhook_event list \<Rightarrow> (string \<times> string \<times> 'msg) list" where
  "deliveries [] = []"
| "deliveries (SendMessageEvent roomID evType msg # es) = (roomID, evType, msg) # deliveries es"
| "deliveries (LogSending evType msg repo roomID # es) = deliveries es"
| "deliveries (LogSendFailed err roomID # es) = deliveries es"

text \<open>The log records of a failed delivery.\<close>

fun failure_log :: "('repo, 'msg) webhook_event \<Rightarrow> bool" where
  "failure_log (LogSendFailed err roomID) = True"
| "failure_log (LogSending evType msg repo roomID) = False"
| "failure_log (SendMessageEvent roomID evType msg) = False"

text \<open>
  The answers of the transport when it is called for the given rooms one after the other,
  each call in the state the call before left: the room and the error, if any.
\<close>

fun transport_answers ::
  "('cli \<Rightarrow> string \<Rightarrow> string \<Rightarrow> 'msg \<Rightarrow> error option \<times> 'cli) \<Rightarrow> 'msg \<Rightarrow> string list \<Rightarrow> 'cli
    \<Rightarrow> (string \<times> error option) list" where
  "transport_answers send msg [] cli = []"
| "transport_answers send msg (roomID # rest) cli =
     (case send cli roomID ''m.room.message'' msg of
        (e, cli') \<Rightarrow> (roomID, e) # transport_answers send msg rest cli')"

text \<open>The table of the end-to-end routing scenario: two rooms, one event type each.\<close>

definition scenario_service :: githubService where
  "scenario_service =
     \<lparr>id' = ''github'', UserID = ''@github:example.org'',
      Rooms = [''!roomA'' \<mapsto> [''issue''], ''!roomB'' \<mapsto> [''push'']]\<rparr>"

text \<open>
  The character class as the specification words it (alphanumerics, hyphen, underscore),
  and the pattern over it, for comparison with the pattern of the source.
\<close>

definition spec_ownerRepoClass :: char_class where
  "spec_ownerRepoClass =
     [(CHR ''A'', CHR ''Z''), (CHR ''a'', CHR ''z''), (CHR ''0'', CHR ''9''),
      (CHR ''-'', CHR ''-''), (CHR ''_'', CHR ''_'')]"

definition spec_ownerRepoIssueRegex :: "regex_item list" where
  "spec_ownerRepoIssueRegex =
     [CapturePlus spec_ownerRepoClass, Literal CHR ''/'',
      CapturePlus spec_ownerRepoClass, Literal CHR ''#'',
      CapturePlus numberClass]"

text \<open>The value of a digit run in base 10.\<close>

definition decimal :: "string \<Rightarrow> int" where
  "decimal s = foldl (\<lambda>n c. n * 10 + digit_value c) 0 s"

text \<open>
  The shape of a match: the matched text is, item by item, the literal byte or a
  non-empty run of the class, and the runs are the groups.
\<close>

fun shape :: "regex_item list \<Rightarrow> string list \<Rightarrow> string \<Rightarrow> bool" where
  "shape [] groups t \<longleftrightarrow> groups = [] \<and> t = []"
| "shape (Literal c # ps) groups t \<longleftrightarrow>
     (case t of [] \<Rightarrow> False | x # t' \<Rightarrow> x = c \<and> shape ps groups t')"
| "shape (CapturePlus cls # ps) groups t \<longleftrightarrow>
     (case groups of
        [] \<Rightarrow> False
      | g # gs \<Rightarrow>
          g \<noteq> [] \<and> list_all (in_class cls) g \<and> take (length g) t = g
          \<and> shape ps gs (drop (length g) t))"

section \<open>Properties of the reference matcher\<close>

subsection \<open>What a match looks like\<close>

lemma first_some_SomeD:
  "first_some f xs = Some y \<Longrightarrow> \<exists>x \<in> set xs. f x = Some y"
  by (induction xs) (auto split: option.splits)

lemma take_within_takeWhile:
  assumes "n \<le> length (takeWhile P s)"
  shows "take n s = take n (takeWhile P s)"
proof -
  have "take n (takeWhile P s @ dropWhile P s) =
      take n (takeWhile P s) @ take (n - length (takeWhile P s)) (dropWhile P s)"
    by (rule take_append)
  then show ?thesis
    unfolding takeWhile_dropWhile_id using assms by simp
qed

lemma run_prefix:
  assumes "1 \<le> n" and "n \<le> length (takeWhile P s)"
  shows "take n s \<noteq> [] \<and> list_all P (take n s) \<and> length (take n s) = n"
proof -
  have len: "n \<le> length s"
    using assms(2) length_takeWhile_le [of P s] by linarith
  have "list_all P (take n (takeWhile P s))"
    by (auto simp: list_all_iff dest!: in_set_takeD set_takeWhileD)
  then have "list_all P (take n s)"
    using take_within_takeWhile [OF assms(2)] by simp
  moreover have "take n s \<noteq> []"
    using assms(1) len by auto
  ultimately show ?thesis using len by simp
qed

lemma match_here_shape:
  "match_here ps s = Some (groups, rest) \<Longrightarrow> \<exists>t. s = t @ rest \<and> shape ps groups t"
proof (induction ps s arbitrary: groups rest rule: match_here.induct)
  case (1 s)
  then show ?case by simp
next
  case (2 c ps s)
  then obtain xs where s: "s = c # xs" and m: "match_here ps xs = Some (groups, rest)"
    by (auto split: list.splits if_splits)
  from "2.IH" [OF s refl m] obtain t where "xs = t @ rest" "shape ps groups t"
    by blast
  then have "s = (c # t) @ rest \<and> shape (Literal c # ps) groups (c # t)"
    using s by simp
  then show ?case by blast
next
  case (3 cls ps s)
  let ?k = "length (takeWhile (in_class cls) s)"
  let ?attempt = "\<lambda>n. case match_here ps (drop n s) of
              None \<Rightarrow> None
            | Some (groups, rest) \<Rightarrow> Some (take n s # groups, rest)"
  have "first_some ?attempt (rev [1 ..< Suc ?k]) = Some (groups, rest)"
    using "3.prems" by simp
  from first_some_SomeD [OF this]
  obtain n where n: "n \<in> set (rev [1 ..< Suc ?k])" and c: "?attempt n = Some (groups, rest)"
    by blast
  from c obtain gs where m: "match_here ps (drop n s) = Some (gs, rest)"
    and g: "groups = take n s # gs"
    by (auto split: option.splits)
  have bounds: "1 \<le> n" "n \<le> ?k" using n by auto
  from "3.IH" [OF m] obtain t where t: "drop n s = t @ rest" "shape ps gs t"
    by blast
  have run: "take n s \<noteq> [] \<and> list_all (in_class cls) (take n s) \<and> length (take n s) = n"
    using run_prefix [OF bounds] .
  have "s = (take n s @ t) @ rest"
    using t(1) append_take_drop_id [of n s] by simp
  moreover have "shape (CapturePlus cls # ps) groups (take n s @ t)"
    using g run t(2) by simp
  ultimately show ?case by blast
qed

lemma FindStringSubmatch_shape:
  "FindStringSubmatch re s = full # groups \<Longrightarrow>
   \<exists>before rest. s = before @ full @ rest \<and> shape re groups full"
proof (induction re s rule: FindStringSubmatch.induct)
  case (1 re s)
  show ?case
  proof (cases "match_here re s")
    case None
    with "1.prems" obtain x xs where s: "s = x # xs" and f: "FindStringSubmatch re xs = full # groups"
      by (auto split: list.splits)
    from "1.IH" [OF None s f] obtain before rest
      where "xs = before @ full @ rest" "shape re groups full" by blast
    then have "s = (x # before) @ full @ rest \<and> shape re groups full"
      using s by simp
    then show ?thesis by blast
  next
    case (Some r)
    obtain gs rest where r: "r = (gs, rest)" by (cases r)
    from match_here_shape [of re s gs rest] Some r
    obtain t where t: "s = t @ rest" "shape re gs t" by auto
    have "full = take (length s - length rest) s" "groups = gs"
      using "1.prems" Some r by simp_all
    then have "full = t" using t(1) by simp
    then have "s = [] @ full @ rest \<and> shape re groups full"
      using t \<open>groups = gs\<close> by simp
    then show ?thesis by blast
  qed
qed

lemma in_numberClass: "in_class numberClass c \<longleftrightarrow> is_digit c"
  by (simp add: in_class_def numberClass_def is_digit_def)

lemma ownerRepoIssueRegex_groups:
  assumes "FindStringSubmatch ownerRepoIssueRegex text = [full, owner, repo, number]"
  shows "full = owner @ ''/'' @ repo @ ''#'' @ number \<and>
         owner \<noteq> [] \<and> list_all (in_class ownerRepoClass) owner \<and>
         repo \<noteq> [] \<and> list_all (in_class ownerRepoClass) repo \<and>
         number \<noteq> [] \<and> list_all is_digit number"
proof -
  from FindStringSubmatch_shape [OF assms]
  have sh: "shape ownerRepoIssueRegex [owner, repo, number] full" by blast
  have o: "owner \<noteq> []" "list_all (in_class ownerRepoClass) owner" "take (length owner) full = owner"
    and sh1: "shape [Literal CHR ''/'', CapturePlus ownerRepoClass, Literal CHR ''#'',
      CapturePlus numberClass] [repo, number] (drop (length owner) full)"
    using sh by (simp_all add: ownerRepoIssueRegex_def)
  from sh1 obtain t1 where t1: "drop (length owner) full = CHR ''/'' # t1"
    and sh2: "shape [CapturePlus ownerRepoClass, Literal CHR ''#'', CapturePlus numberClass]
      [repo, number] t1"
    by (auto split: list.splits)
  have r: "repo \<noteq> []" "list_all (in_class ownerRepoClass) repo" "take (length repo) t1 = repo"
    and sh3: "shape [Literal CHR ''#'', CapturePlus numberClass] [number] (drop (length repo) t1)"
    using sh2 by simp_all
  from sh3 obtain t2 where t2: "drop (length repo) t1 = CHR ''#'' # t2"
    and sh4: "shape [CapturePlus numberClass] [number] t2"
    by (auto split: list.splits)
  have n: "number \<noteq> []" "list_all (in_class numberClass) number" "take (length number) t2 = number"
    "drop (length number) t2 = []"
    using sh4 by simp_all
  have "t2 = number"
    using n(3,4) append_take_drop_id [of "length number" t2] by simp
  moreover have "t1 = repo @ CHR ''#'' # t2"
    using r(3) t2 append_take_drop_id [of "length repo" t1] by simp
  moreover have "full = owner @ CHR ''/'' # t1"
    using o(3) t1 append_take_drop_id [of "length owner" full] by simp
  ultimately have "full = owner @ ''/'' @ repo @ ''#'' @ number" by simp
  moreover have "list_all is_digit number"
    using n(2) by (simp add: list_all_iff in_numberClass)
  ultimately show ?thesis using o r n by simp
qed


subsection \<open>\<^verbatim>\<open>Atoi\<close> on a run of digits\<close>

lemma digit_value_bounds: "is_digit c \<Longrightarrow> 0 \<le> digit_value c \<and> digit_value c \<le> 9"
  by (auto simp: is_digit_def digit_value_def)

lemma foldl_digits_mono:
  "list_all is_digit cs \<Longrightarrow> 0 \<le> n \<Longrightarrow> n \<le> foldl (\<lambda>n c. n * 10 + digit_value c) n cs"
proof (induction cs arbitrary: n)
  case Nil
  show ?case by simp
next
  case (Cons c cs)
  have d: "0 \<le> digit_value c" using Cons.prems(1) digit_value_bounds by simp
  have step: "n \<le> n * 10 + digit_value c" using d Cons.prems(2) by simp
  have "n * 10 + digit_value c \<le> foldl (\<lambda>n c. n * 10 + digit_value c) (n * 10 + digit_value c) cs"
    using Cons.IH [of "n * 10 + digit_value c"] Cons.prems step by simp
  with step show ?case by simp
qed

lemma ParseUint_loop_digits:
  "list_all is_digit cs \<Longrightarrow> 0 \<le> n \<Longrightarrow> n \<le> maxVal \<Longrightarrow>
   ParseUint_loop maxVal n cs =
     (if foldl (\<lambda>n c. n * 10 + digit_value c) n cs \<le> maxVal
      then Inr (foldl (\<lambda>n c. n * 10 + digit_value c) n cs) else Inl ErrRange)"
proof (induction cs arbitrary: n)
  case Nil
  then show ?case by simp
next
  case (Cons c cs)
  have c: "is_digit c" and cs: "list_all is_digit cs" using Cons.prems(1) by simp_all
  have d: "0 \<le> digit_value c" using c digit_value_bounds by simp
  have n1: "0 \<le> n * 10 + digit_value c" using d Cons.prems(2) by simp
  show ?case
  proof (cases "n * 10 + digit_value c > maxVal")
    case True
    have "n * 10 + digit_value c \<le> foldl (\<lambda>n c. n * 10 + digit_value c) (n * 10 + digit_value c) cs"
      using foldl_digits_mono [OF cs n1] .
    with True c show ?thesis by simp
  next
    case False
    then have "n * 10 + digit_value c \<le> maxVal" by simp
    with False c Cons.IH [OF cs n1] show ?thesis by simp
  qed
qed

lemma Atoi_digits:
  assumes "s \<noteq> []" and "list_all is_digit s"
  shows "Atoi intSize s =
     (if decimal s < 2 ^ (intSize - 1) then Inr (decimal s) else Inl (NumError s ErrRange))"
proof -
  obtain c cs where s: "s = c # cs" using assms(1) by (cases s) auto
  have "is_digit c" using assms(2) s by simp
  then have nosign: "c \<noteq> CHR ''+''" "c \<noteq> CHR ''-''"
    by (auto simp: is_digit_def)
  have loop: "ParseUint intSize s =
     (if decimal s \<le> 2 ^ intSize - 1 then Inr (decimal s) else Inl ErrRange)"
    using assms ParseUint_loop_digits [OF assms(2), of 0 "2 ^ intSize - 1"]
    by (simp add: ParseUint_def decimal_def)
  have pow: "(2 :: int) ^ (intSize - 1) \<le> 2 ^ intSize"
    by (rule power_increasing) simp_all
  show ?thesis
  proof (cases "decimal s < 2 ^ (intSize - 1)")
    case True
    then have "decimal s \<le> 2 ^ intSize - 1" using pow by linarith
    with True loop nosign show ?thesis
      by (simp add: Atoi_def s)
  next
    case False
    with loop nosign show ?thesis
      by (simp add: Atoi_def s)
  qed
qed


subsection \<open>Extraction\<close>

text \<open>
  C4. The claim reads the owner and the repository as runs of alphanumerics, hyphens and
  underscores only. The class of the source, \<^verbatim>\<open>[A-z0-9-_]\<close>, has the range \<^verbatim>\<open>A-z\<close>,
  which also holds the six bytes between \<^verbatim>\<open>Z\<close> and \<^verbatim>\<open>a\<close>, the opening bracket among
  them. On the text below the source's pattern takes the bracket into the owner; the
  pattern over the class the claim describes starts the owner after it.
\<close>

theorem bracket_accepted_in_owner:
  "FindStringSubmatch ownerRepoIssueRegex ''see [octocat/Hello-World#1]'' =
     [''[octocat/Hello-World#1'', ''[octocat'', ''Hello-World'', ''1''] \<and>
   FindStringSubmatch spec_ownerRepoIssueRegex ''see [octocat/Hello-World#1]'' =
     [''octocat/Hello-World#1'', ''octocat'', ''Hello-World'', ''1''] \<and>
   ownerRepoNumberFromText 64 ''see [octocat/Hello-World#1]'' =
     Inr (''[octocat'', ''Hello-World'', 1)"
  by code_simp


text \<open>
  C5. When the number field of the leftmost match is a digit run whose value exceeds the
  largest \<^verbatim>\<open>int\<close>, extraction returns the range error of \<^verbatim>\<open>Atoi\<close> and no reference, and
  the expansion logs the error and returns \<^verbatim>\<open>nil\<close>: no lookup is made and nothing panics.
\<close>

theorem overflowing_number_is_dropped:
  assumes "FindStringSubmatch ownerRepoIssueRegex text = [full, owner, repo, number]"
    and "2 ^ (intSize - 1) \<le> decimal number"
  shows "ownerRepoNumberFromText intSize text = Inl (NumError number ErrRange) \<and>
         Expand intSize Issues_Get roomID text =
           ([LogExtractFailed (NumError number ErrRange) text], nil)"
proof -
  have "number \<noteq> []" "list_all is_digit number"
    using ownerRepoIssueRegex_groups [OF assms(1)] by simp_all
  then have "Atoi intSize number = Inl (NumError number ErrRange)"
    using assms(2) by (simp add: Atoi_digits)
  then have "ownerRepoNumberFromText intSize text = Inl (NumError number ErrRange)"
    using assms(1) by (simp add: ownerRepoNumberFromText_def)
  then show ?thesis by (simp add: Expand_def)
qed

theorem overflowing_number_is_dropped_witness:
  "FindStringSubmatch ownerRepoIssueRegex ''a/b#99999999999999999999'' =
     [''a/b#99999999999999999999'', ''a'', ''b'', ''99999999999999999999''] \<and>
   (2 :: int) ^ (64 - 1) \<le> decimal ''99999999999999999999'' \<and>
   ownerRepoNumberFromText 64 ''a/b#99999999999999999999'' =
     Inl (NumError ''99999999999999999999'' ErrRange) \<and>
   Expand 64 (\<lambda>cli owner repo num. Inr \<lparr>HTMLURL = Some ''http://x/1'', Title = Some ''Fix bug''\<rparr>)
       ''!roomA'' ''a/b#99999999999999999999'' =
     ([LogExtractFailed (NumError ''99999999999999999999'' ErrRange) ''a/b#99999999999999999999''], nil)"
proof -
  have m: "FindStringSubmatch ownerRepoIssueRegex ''a/b#99999999999999999999'' =
     [''a/b#99999999999999999999'', ''a'', ''b'', ''99999999999999999999'']"
    by code_simp
  have big: "(2 :: int) ^ (64 - 1) \<le> decimal ''99999999999999999999''"
    by code_simp
  show ?thesis
    using overflowing_number_is_dropped [OF m big] m big by blast
qed


text \<open>
  C9. On \<^verbatim>\<open>octocat/Hello-World#123\<close> extraction yields owner \<^verbatim>\<open>octocat\<close>, repository
  \<^verbatim>\<open>Hello-World\<close> and number 123, and on \<^verbatim>\<open>not-a-match\<close> it yields the no-match error;
  this holds for every width of \<^verbatim>\<open>int\<close> of at least 8 bits, so for Go's 32 and 64.
\<close>

theorem extraction_examples:
  assumes "8 \<le> intSize"
  shows "ownerRepoNumberFromText intSize ''octocat/Hello-World#123'' =
           Inr (''octocat'', ''Hello-World'', 123) \<and>
         ownerRepoNumberFromText intSize ''not-a-match'' =
           Inl (Errorf (''No match found for '' @ [CHR 0x27] @ ''not-a-match'' @ [CHR 0x27]))"
proof -
  have m: "FindStringSubmatch ownerRepoIssueRegex ''octocat/Hello-World#123'' =
     [''octocat/Hello-World#123'', ''octocat'', ''Hello-World'', ''123'']"
    by code_simp
  have n: "FindStringSubmatch ownerRepoIssueRegex ''not-a-match'' = []"
    by code_simp
  have d: "decimal ''123'' = 123" "list_all is_digit ''123''"
    by code_simp+
  have "(2 :: int) ^ 7 \<le> 2 ^ (intSize - 1)"
    by (rule power_increasing) (use assms in simp_all)
  then have "decimal ''123'' < 2 ^ (intSize - 1)"
    using d(1) by simp
  then have "Atoi intSize ''123'' = Inr 123"
    using d by (simp add: Atoi_digits)
  then show ?thesis
    using m n by (simp add: ownerRepoNumberFromText_def)
qed

theorem extraction_examples_witness:
  "ownerRepoNumberFromText 64 ''octocat/Hello-World#123'' =
     Inr (''octocat'', ''Hello-World'', 123) \<and>
   ownerRepoNumberFromText 32 ''octocat/Hello-World#123'' =
     Inr (''octocat'', ''Hello-World'', 123) \<and>
   ownerRepoNumberFromText 64 ''not-a-match'' =
     Inl (Errorf (''No match found for '' @ [CHR 0x27] @ ''not-a-match'' @ [CHR 0x27]))"
  using extraction_examples [of 64] extraction_examples [of 32] by simp


section \<open>Properties of the expansion\<close>

text \<open>
  C6. For a text from which a reference is extracted, if the lookup returns an error then
  the expansion returns \<^verbatim>\<open>nil\<close>; all it does is the lookup call and one log record that
  carries the error and the reference.
\<close>

theorem resolver_error_yields_nil:
  assumes "ownerRepoNumberFromText intSize text = Inr (owner, repo, num)"
    and "Issues_Get (githubClient '''') owner repo num = Inl err"
  shows "Expand intSize Issues_Get roomID text =
           ([IssuesGet (githubClient '''') owner repo num, LogFetchFailed err owner repo num], nil)"
  using assms by (simp add: Expand_def)

theorem resolver_error_yields_nil_witness:
  "ownerRepoNumberFromText 64 ''octocat/Hello-World#1'' = Inr (''octocat'', ''Hello-World'', 1) \<and>
   Expand 64 (\<lambda>cli owner repo num. Inl (RemoteError ''404 Not Found'')) ''!roomA''
       ''octocat/Hello-World#1'' =
     ([IssuesGet (githubClient '''') ''octocat'' ''Hello-World'' 1,
       LogFetchFailed (RemoteError ''404 Not Found'') ''octocat'' ''Hello-World'' 1], nil)"
proof -
  have x: "ownerRepoNumberFromText 64 ''octocat/Hello-World#1'' =
      Inr (''octocat'', ''Hello-World'', 1)"
    by code_simp
  show ?thesis
    using resolver_error_yields_nil
      [of 64 "''octocat/Hello-World#1''" "''octocat''" "''Hello-World''" 1
        "\<lambda>cli owner repo num. Inl (RemoteError ''404 Not Found'')"
        "RemoteError ''404 Not Found''" "''!roomA''"] x
    by simp
qed


text \<open>
  C7. For a text from which a reference is extracted, if the lookup returns an issue that
  has a URL and a title, the expansion returns the notice whose body is the URL, then
  \<^verbatim>\<open> : \<close>, then the title.
\<close>

theorem resolved_summary_is_formatted:
  assumes "ownerRepoNumberFromText intSize text = Inr (owner, repo, num)"
    and "Issues_Get (githubClient '''') owner repo num = Inr i"
    and "HTMLURL i = Some url" and "Title i = Some title"
  shows "Expand intSize Issues_Get roomID text =
           ([IssuesGet (githubClient '''') owner repo num],
            Notice \<lparr>MsgType = ''m.notice'', Body = url @ '' : '' @ title\<rparr>)"
  using assms by (simp add: Expand_def)

theorem resolved_summary_is_formatted_witness:
  "ownerRepoNumberFromText 64 ''see octocat/Hello-World#1 for details'' =
     Inr (''octocat'', ''Hello-World'', 1) \<and>
   Expand 64
       (\<lambda>cli owner repo num. Inr \<lparr>HTMLURL = Some ''http://x/1'', Title = Some ''Fix bug''\<rparr>)
       ''!roomA'' ''see octocat/Hello-World#1 for details'' =
     ([IssuesGet (githubClient '''') ''octocat'' ''Hello-World'' 1],
      Notice \<lparr>MsgType = ''m.notice'', Body = ''http://x/1 : Fix bug''\<rparr>)"
proof -
  have x: "ownerRepoNumberFromText 64 ''see octocat/Hello-World#1 for details'' =
      Inr (''octocat'', ''Hello-World'', 1)"
    by code_simp
  show ?thesis
    using resolved_summary_is_formatted
      [of 64 "''see octocat/Hello-World#1 for details''" "''octocat''" "''Hello-World''" 1
        "\<lambda>cli owner repo num. Inr \<lparr>HTMLURL = Some ''http://x/1'', Title = Some ''Fix bug''\<rparr>"
        "\<lparr>HTMLURL = Some ''http://x/1'', Title = Some ''Fix bug''\<rparr>"
        "''http://x/1''" "''Fix bug''" "''!roomA''"] x
    by simp
qed


text \<open>
  C10. The client of every expansion is built from the empty token, so it has no token
  source: every lookup call in the trace is made with that client, and the expansion
  depends on the lookup only through what it answers to that client.
\<close>

theorem lookup_client_has_no_token:
  "tokenSource (githubClient '''') = None \<and>
   (\<forall>e \<in> set (fst (Expand intSize Issues_Get roomID text)).
      \<forall>cli owner repo num. e = IssuesGet cli owner repo num \<longrightarrow> cli = githubClient '''') \<and>
   Expand intSize Issues_Get roomID text =
     Expand intSize (\<lambda>cli. Issues_Get (githubClient '''')) roomID text"
  by (auto simp: Expand_def Let_def githubClient_def split: sum.splits option.splits prod.splits)

theorem lookup_client_has_no_token_witness:
  "IssuesGet \<lparr>tokenSource = None\<rparr> ''octocat'' ''Hello-World'' 1
     \<in> set (fst (Expand 64
          (\<lambda>cli owner repo num.
             if tokenSource cli = None then Inl (RemoteError ''403 rate limit exceeded'')
             else Inr \<lparr>HTMLURL = Some ''http://x/1'', Title = Some ''Fix bug''\<rparr>)
          ''!roomA'' ''octocat/Hello-World#1'')) \<and>
   Expand 64
       (\<lambda>cli owner repo num.
          if tokenSource cli = None then Inl (RemoteError ''403 rate limit exceeded'')
          else Inr \<lparr>HTMLURL = Some ''http://x/1'', Title = Some ''Fix bug''\<rparr>)
       ''!roomA'' ''octocat/Hello-World#1'' =
     Expand 64 (\<lambda>cli owner repo num. Inl (RemoteError ''403 rate limit exceeded''))
       ''!roomA'' ''octocat/Hello-World#1''"
proof -
  have x: "ownerRepoNumberFromText 64 ''octocat/Hello-World#1'' =
      Inr (''octocat'', ''Hello-World'', 1)"
    by code_simp
  have t: "fst (Expand 64
          (\<lambda>cli owner repo num.
             if tokenSource cli = None then Inl (RemoteError ''403 rate limit exceeded'')
             else Inr \<lparr>HTMLURL = Some ''http://x/1'', Title = Some ''Fix bug''\<rparr>)
          ''!roomA'' ''octocat/Hello-World#1'') =
      [IssuesGet \<lparr>tokenSource = None\<rparr> ''octocat'' ''Hello-World'' 1,
       LogFetchFailed (RemoteError ''403 rate limit exceeded'') ''octocat'' ''Hello-World'' 1]"
    using x by (simp add: Expand_def githubClient_def)
  show ?thesis
    using lookup_client_has_no_token
      [of 64 "\<lambda>cli owner repo num.
             if tokenSource cli = None then Inl (RemoteError ''403 rate limit exceeded'')
             else Inr \<lparr>HTMLURL = Some ''http://x/1'', Title = Some ''Fix bug''\<rparr>"
        "''!roomA''" "''octocat/Hello-World#1''"] t
    by (simp add: githubClient_def)
qed


section \<open>Properties of the webhook router\<close>

subsection \<open>The loops\<close>

lemma notifyRoom_iff: "notifyRoom evType notif \<longleftrightarrow> evType \<in> set notif"
  by (induction notif) auto

lemma set_range_map: "set (range_map m order) = {(k, v). k \<in> set order \<and> m k = Some v}"
  by (induction order) (auto split: option.splits)

lemma map_fst_range_map: "map fst (range_map m order) = filter (\<lambda>k. m k \<noteq> None) order"
  by (induction order) (auto split: option.splits)

lemma distinct_range_map: "distinct order \<Longrightarrow> distinct (map fst (range_map m order))"
  by (simp add: map_fst_range_map)

lemma deliveries_append: "deliveries (es @ fs) = deliveries es @ deliveries fs"
  by (induction es rule: deliveries.induct) simp_all

lemma deliveries_notify_rooms:
  "deliveries (fst (notify_rooms send evType repo msg entries cli)) =
     map (\<lambda>(roomID, notif). (roomID, ''m.room.message'', msg))
       (filter (\<lambda>(roomID, notif). evType \<in> set notif) entries)"
proof (induction entries arbitrary: cli)
  case Nil
  show ?case by simp
next
  case (Cons entry entries)
  obtain roomID notif where entry: "entry = (roomID, notif)" by (cases entry)
  show ?case
  proof (cases "evType \<in> set notif")
    case True
    obtain e cli' where s: "send cli roomID ''m.room.message'' msg = (e, cli')"
      by (cases "send cli roomID ''m.room.message'' msg")
    obtain later cli'' where r: "notify_rooms send evType repo msg entries cli' = (later, cli'')"
      by (cases "notify_rooms send evType repo msg entries cli'")
    have "deliveries later =
        map (\<lambda>(roomID, notif). (roomID, ''m.room.message'', msg))
          (filter (\<lambda>(roomID, notif). evType \<in> set notif) entries)"
      using Cons.IH [of cli'] r by simp
    then show ?thesis
      using True entry s r by (cases e) (simp_all add: notifyRoom_iff deliveries_append)
  next
    case False
    then show ?thesis
      using entry Cons.IH [of cli] by (simp add: notifyRoom_iff)
  qed
qed

lemma trace_decoded:
  "OnReceiveRequest req = Inr (evType, repo, msg) \<Longrightarrow>
   trace (OnReceiveWebhook s order OnReceiveRequest send req cli) =
     fst (notify_rooms send evType repo msg (range_map (Rooms s) order) cli)"
  by (simp add: OnReceiveWebhook_def split: prod.splits)

lemma status_decoded:
  "OnReceiveRequest req = Inr (evType, repo, msg) \<Longrightarrow>
   status (OnReceiveWebhook s order OnReceiveRequest send req cli) = 200"
  by (simp add: OnReceiveWebhook_def split: prod.splits)

lemma fst_notify_rooms_Cons:
  "fst (notify_rooms send evType repo msg ((roomID, notif) # rest) cli) =
     (if evType \<in> set notif then
        [LogSending evType msg repo roomID, SendMessageEvent roomID ''m.room.message'' msg]
        @ (case fst (send cli roomID ''m.room.message'' msg) of
             None \<Rightarrow> [] | Some err \<Rightarrow> [LogSendFailed err roomID])
        @ fst (notify_rooms send evType repo msg rest (snd (send cli roomID ''m.room.message'' msg)))
      else fst (notify_rooms send evType repo msg rest cli))"
  by (simp add: notifyRoom_iff split: prod.splits)

lemma filter_failure_log_notify_rooms:
  assumes "\<forall>c roomID evt m. fst (send_ok c roomID evt m) = None"
  shows "filter (\<lambda>e. \<not> failure_log e) (fst (notify_rooms send evType repo msg entries cli)) =
         fst (notify_rooms send_ok evType repo msg entries cli0)"
proof (induction entries arbitrary: cli cli0)
  case Nil
  show ?case by simp
next
  case (Cons entry entries)
  obtain roomID notif where entry: "entry = (roomID, notif)" by (cases entry)
  have ok: "fst (send_ok cli0 roomID ''m.room.message'' msg) = None"
    using assms by simp
  show ?case
    unfolding entry fst_notify_rooms_Cons ok
    by (simp add: Cons.IH split: option.splits)
qed


lemma transport_answers_Cons:
  "transport_answers send msg (roomID # rest) cli =
     (roomID, fst (send cli roomID ''m.room.message'' msg))
     # transport_answers send msg rest (snd (send cli roomID ''m.room.message'' msg))"
  by (simp split: prod.splits)

lemma map_fst_transport_answers: "map fst (transport_answers send msg rooms cli) = rooms"
  by (induction rooms arbitrary: cli) (simp_all split: prod.splits)

lemma fst_notify_rooms_answers:
  "fst (notify_rooms send evType repo msg entries cli) =
     concat (map (\<lambda>(roomID, e).
                    [LogSending evType msg repo roomID,
                     SendMessageEvent roomID ''m.room.message'' msg]
                    @ (case e of None \<Rightarrow> [] | Some err \<Rightarrow> [LogSendFailed err roomID]))
       (transport_answers send msg
          (map fst (filter (\<lambda>(roomID, notif). evType \<in> set notif) entries)) cli))"
proof (induction entries arbitrary: cli)
  case Nil
  show ?case by simp
next
  case (Cons entry entries)
  obtain roomID notif where entry: "entry = (roomID, notif)" by (cases entry)
  show ?case
    unfolding entry fst_notify_rooms_Cons
    by (simp add: Cons.IH transport_answers_Cons del: transport_answers.simps(2))
qed

lemma failure_logs_of_answers:
  "filter failure_log
     (concat (map (\<lambda>(roomID, e).
                    [LogSending evType msg repo roomID,
                     SendMessageEvent roomID ''m.room.message'' msg]
                    @ (case e of None \<Rightarrow> [] | Some err \<Rightarrow> [LogSendFailed err roomID]))
        answers)) =
   concat (map (\<lambda>(roomID, e). case e of None \<Rightarrow> [] | Some err \<Rightarrow> [LogSendFailed err roomID])
     answers)"
  by (induction answers) (auto split: option.splits)

lemma notify_rooms_range_map_cong:
  assumes "\<forall>r. map_option set (m r) = map_option set (m' r)"
  shows "notify_rooms send evType repo msg (range_map m order) cli =
         notify_rooms send evType repo msg (range_map m' order) cli"
proof (induction order arbitrary: cli)
  case Nil
  show ?case by simp
next
  case (Cons r order)
  show ?case
  proof (cases "m r")
    case None
    have "map_option set (m r) = map_option set (m' r)" using assms by simp
    with None have "m' r = None" by simp
    with None Cons.IH show ?thesis by simp
  next
    case (Some notif)
    have "map_option set (m r) = map_option set (m' r)" using assms by simp
    with Some obtain notif' where n': "m' r = Some notif'" and eq: "set notif = set notif'"
      by (cases "m' r") auto
    show ?thesis
      using Some n' eq Cons.IH by (simp add: notifyRoom_iff split: prod.splits)
  qed
qed



lemma set_deliveries_decoded:
  assumes "OnReceiveRequest req = Inr (evType, repo, msg)"
    and "range_order (Rooms s) order"
  shows "set (deliveries (trace (OnReceiveWebhook s order OnReceiveRequest send req cli))) =
     {(roomID, ''m.room.message'', msg) | roomID.
        \<exists>notif. Rooms s roomID = Some notif \<and> evType \<in> set notif}"
proof -
  have "set order = dom (Rooms s)"
    using assms(2) by (simp add: range_order_def)
  then have "set (range_map (Rooms s) order) = {(k, v). Rooms s k = Some v}"
    by (auto simp: set_range_map)
  then show ?thesis
    by (auto simp: trace_decoded [of OnReceiveRequest req, OF assms(1)] deliveries_notify_rooms)
qed

lemma same_sets_same_subscribers:
  assumes "\<forall>r. map_option set (m r) = map_option set (m' r)"
  shows "(\<exists>notif. m r = Some notif \<and> t \<in> set notif) \<longleftrightarrow>
         (\<exists>notif. m' r = Some notif \<and> t \<in> set notif)"
proof -
  have "map_option set (m r) = map_option set (m' r)" using assms by simp
  then show ?thesis by (cases "m r"; cases "m' r") auto
qed


subsection \<open>Routing\<close>

text \<open>
  C1. For every table and every decoded event of type \<open>evType\<close>, the delivery calls of the
  handler go to exactly the rooms whose list in the table contains \<open>evType\<close>, each with the
  rendered message; a room whose list lacks the type, or that the table does not hold, gets
  no call. This holds for every order in which \<^verbatim>\<open>range\<close> may visit the table.
\<close>

theorem routing_partition:
  assumes "OnReceiveRequest req = Inr (evType, repo, msg)"
    and "range_order (Rooms s) order"
  shows "set (deliveries (trace (OnReceiveWebhook s order OnReceiveRequest send req cli))) =
     {(roomID, ''m.room.message'', msg) | roomID.
        \<exists>notif. Rooms s roomID = Some notif \<and> evType \<in> set notif}"
  by (rule set_deliveries_decoded [of OnReceiveRequest req, OF assms])

theorem routing_partition_witness:
  "range_order (Rooms scenario_service) [''!roomA'', ''!roomB''] \<and>
   set (deliveries (trace (OnReceiveWebhook scenario_service [''!roomA'', ''!roomB'']
          (\<lambda>req :: unit. Inr (''issue'', ''octocat/Hello-World'', ''opened''))
          (\<lambda>(cli :: unit) roomID evType msg. (None, cli)) () ()))) =
     {(''!roomA'', ''m.room.message'', ''opened'')} \<and>
   set (deliveries (trace (OnReceiveWebhook scenario_service [''!roomA'', ''!roomB'']
          (\<lambda>req :: unit. Inr (''pull_request'', ''octocat/Hello-World'', ''opened''))
          (\<lambda>(cli :: unit) roomID evType msg. (None, cli)) () ()))) = {}"
proof -
  have ro: "range_order (Rooms scenario_service) [''!roomA'', ''!roomB'']"
    by (auto simp: range_order_def scenario_service_def)
  have a: "set (deliveries (trace (OnReceiveWebhook scenario_service [''!roomA'', ''!roomB'']
          (\<lambda>req :: unit. Inr (''issue'', ''octocat/Hello-World'', ''opened''))
          (\<lambda>(cli :: unit) roomID evType msg. (None, cli)) () ()))) =
     {(roomID, ''m.room.message'', ''opened'') | roomID.
        \<exists>notif. Rooms scenario_service roomID = Some notif \<and> ''issue'' \<in> set notif}"
    using routing_partition [of "\<lambda>req :: unit. Inr (''issue'', ''octocat/Hello-World'', ''opened'')"
        "()" "''issue''" "''octocat/Hello-World''" "''opened''" scenario_service
        "[''!roomA'', ''!roomB'']" "\<lambda>(cli :: unit) roomID evType msg. (None, cli)" "()"] ro
    by simp
  have b: "set (deliveries (trace (OnReceiveWebhook scenario_service [''!roomA'', ''!roomB'']
          (\<lambda>req :: unit. Inr (''pull_request'', ''octocat/Hello-World'', ''opened''))
          (\<lambda>(cli :: unit) roomID evType msg. (None, cli)) () ()))) =
     {(roomID, ''m.room.message'', ''opened'') | roomID.
        \<exists>notif. Rooms scenario_service roomID = Some notif \<and> ''pull_request'' \<in> set notif}"
    using routing_partition [of "\<lambda>req :: unit. Inr (''pull_request'', ''octocat/Hello-World'', ''opened'')"
        "()" "''pull_request''" "''octocat/Hello-World''" "''opened''" scenario_service
        "[''!roomA'', ''!roomB'']" "\<lambda>(cli :: unit) roomID evType msg. (None, cli)" "()"] ro
    by simp
  show ?thesis
    unfolding a b using ro by (auto simp: scenario_service_def split: if_splits)
qed



text \<open>
  C2. A failed delivery does not end the pass. Whatever the transport answers, the delivery
  calls are those to the subscribed rooms in the order of the iteration, so the rooms after
  a failing one are still tried; and the trace with the failure records removed is the
  trace of a run over a transport that never fails, so a failure adds a log record and
  nothing else. The status is the same as well. Every failure is logged: the transport is
  asked once for each subscribed room, the failure records of the trace are, in order, one
  record with the error and the room for each answer that is an error, and the whole trace
  is, room by room, the announcement, the call and that record.
\<close>

theorem delivery_failure_isolated:
  assumes "OnReceiveRequest req = Inr (evType, repo, msg)"
    and "\<forall>c roomID evt m. fst (send_ok c roomID evt m) = None"
  shows "deliveries (trace (OnReceiveWebhook s order OnReceiveRequest send req cli)) =
           map (\<lambda>(roomID, notif). (roomID, ''m.room.message'', msg))
             (filter (\<lambda>(roomID, notif). evType \<in> set notif) (range_map (Rooms s) order)) \<and>
         filter (\<lambda>e. \<not> failure_log e) (trace (OnReceiveWebhook s order OnReceiveRequest send req cli)) =
           trace (OnReceiveWebhook s order OnReceiveRequest send_ok req cli0) \<and>
         status (OnReceiveWebhook s order OnReceiveRequest send req cli) =
           status (OnReceiveWebhook s order OnReceiveRequest send_ok req cli0) \<and>
         map fst
           (transport_answers send msg
              (map fst (filter (\<lambda>(roomID, notif). evType \<in> set notif)
                 (range_map (Rooms s) order))) cli) =
           map fst (filter (\<lambda>(roomID, notif). evType \<in> set notif) (range_map (Rooms s) order)) \<and>
         filter failure_log (trace (OnReceiveWebhook s order OnReceiveRequest send req cli)) =
           concat (map (\<lambda>(roomID, e). case e of None \<Rightarrow> [] | Some err \<Rightarrow> [LogSendFailed err roomID])
             (transport_answers send msg
                (map fst (filter (\<lambda>(roomID, notif). evType \<in> set notif)
                   (range_map (Rooms s) order))) cli)) \<and>
         trace (OnReceiveWebhook s order OnReceiveRequest send req cli) =
           concat (map (\<lambda>(roomID, e).
                          [LogSending evType msg repo roomID,
                           SendMessageEvent roomID ''m.room.message'' msg]
                          @ (case e of None \<Rightarrow> [] | Some err \<Rightarrow> [LogSendFailed err roomID]))
             (transport_answers send msg
                (map fst (filter (\<lambda>(roomID, notif). evType \<in> set notif)
                   (range_map (Rooms s) order))) cli))"
proof -
  let ?run = "OnReceiveWebhook s order OnReceiveRequest send req cli"
  let ?subscribed = "filter (\<lambda>(roomID, notif). evType \<in> set notif) (range_map (Rooms s) order)"
  let ?answers = "transport_answers send msg (map fst ?subscribed) cli"
  have tr: "trace ?run = fst (notify_rooms send evType repo msg (range_map (Rooms s) order) cli)"
    using assms(1) by (rule trace_decoded)
  have calls: "deliveries (trace ?run) =
      map (\<lambda>(roomID, notif). (roomID, ''m.room.message'', msg)) ?subscribed"
    unfolding tr by (rule deliveries_notify_rooms)
  have quiet: "filter (\<lambda>e. \<not> failure_log e) (trace ?run) =
      trace (OnReceiveWebhook s order OnReceiveRequest send_ok req cli0)"
    using assms(1) filter_failure_log_notify_rooms [OF assms(2)]
    by (simp add: trace_decoded [of OnReceiveRequest req])
  have st: "status ?run = status (OnReceiveWebhook s order OnReceiveRequest send_ok req cli0)"
    using assms(1) by (simp add: status_decoded [of OnReceiveRequest req])
  have asked: "map fst ?answers = map fst ?subscribed"
    by (rule map_fst_transport_answers)
  have whole: "trace ?run =
      concat (map (\<lambda>(roomID, e).
                     [LogSending evType msg repo roomID,
                      SendMessageEvent roomID ''m.room.message'' msg]
                     @ (case e of None \<Rightarrow> [] | Some err \<Rightarrow> [LogSendFailed err roomID]))
        ?answers)"
    unfolding tr by (rule fst_notify_rooms_answers)
  have logged: "filter failure_log (trace ?run) =
      concat (map (\<lambda>(roomID, e). case e of None \<Rightarrow> [] | Some err \<Rightarrow> [LogSendFailed err roomID])
        ?answers)"
    unfolding whole by (rule failure_logs_of_answers)
  from calls quiet st asked logged whole show ?thesis
    by (intro conjI)
qed

theorem delivery_failure_isolated_witness:
  "(\<forall>c roomID evt m. fst ((\<lambda>(cli :: unit) roomID evType (msg :: string). (None :: error option, cli)) c roomID evt m) = None) \<and>
   trace (OnReceiveWebhook
          \<lparr>id' = ''github'', UserID = ''@github:example.org'',
           Rooms = [''!roomA'' \<mapsto> [''issue''], ''!roomB'' \<mapsto> [''push'', ''issue'']]\<rparr>
          [''!roomA'', ''!roomB'']
          (\<lambda>req :: unit. Inr (''issue'', ''octocat/Hello-World'', ''opened''))
          (\<lambda>(cli :: unit) roomID evType msg.
             (if roomID = ''!roomA'' then Some (RemoteError ''M_FORBIDDEN'') else None, cli))
          () ()) =
     [LogSending ''issue'' ''opened'' ''octocat/Hello-World'' ''!roomA'',
      SendMessageEvent ''!roomA'' ''m.room.message'' ''opened'',
      LogSendFailed (RemoteError ''M_FORBIDDEN'') ''!roomA'',
      LogSending ''issue'' ''opened'' ''octocat/Hello-World'' ''!roomB'',
      SendMessageEvent ''!roomB'' ''m.room.message'' ''opened''] \<and>
   deliveries (trace (OnReceiveWebhook
          \<lparr>id' = ''github'', UserID = ''@github:example.org'',
           Rooms = [''!roomA'' \<mapsto> [''issue''], ''!roomB'' \<mapsto> [''push'', ''issue'']]\<rparr>
          [''!roomA'', ''!roomB'']
          (\<lambda>req :: unit. Inr (''issue'', ''octocat/Hello-World'', ''opened''))
          (\<lambda>(cli :: unit) roomID evType msg.
             (if roomID = ''!roomA'' then Some (RemoteError ''M_FORBIDDEN'') else None, cli))
          () ())) =
     [(''!roomA'', ''m.room.message'', ''opened''), (''!roomB'', ''m.room.message'', ''opened'')] \<and>
   filter (\<lambda>e. \<not> failure_log e) (trace (OnReceiveWebhook
          \<lparr>id' = ''github'', UserID = ''@github:example.org'',
           Rooms = [''!roomA'' \<mapsto> [''issue''], ''!roomB'' \<mapsto> [''push'', ''issue'']]\<rparr>
          [''!roomA'', ''!roomB'']
          (\<lambda>req :: unit. Inr (''issue'', ''octocat/Hello-World'', ''opened''))
          (\<lambda>(cli :: unit) roomID evType msg.
             (if roomID = ''!roomA'' then Some (RemoteError ''M_FORBIDDEN'') else None, cli))
          () ())) =
     trace (OnReceiveWebhook
          \<lparr>id' = ''github'', UserID = ''@github:example.org'',
           Rooms = [''!roomA'' \<mapsto> [''issue''], ''!roomB'' \<mapsto> [''push'', ''issue'']]\<rparr>
          [''!roomA'', ''!roomB'']
          (\<lambda>req :: unit. Inr (''issue'', ''octocat/Hello-World'', ''opened''))
          (\<lambda>(cli :: unit) roomID evType msg. (None, cli))
          () ()) \<and>
   transport_answers
       (\<lambda>(cli :: unit) roomID evType (msg :: string).
          (if roomID = ''!roomA'' then Some (RemoteError ''M_FORBIDDEN'') else None, cli))
       ''opened'' [''!roomA'', ''!roomB''] () =
     [(''!roomA'', Some (RemoteError ''M_FORBIDDEN'')), (''!roomB'', None)] \<and>
   filter failure_log (trace (OnReceiveWebhook
          \<lparr>id' = ''github'', UserID = ''@github:example.org'',
           Rooms = [''!roomA'' \<mapsto> [''issue''], ''!roomB'' \<mapsto> [''push'', ''issue'']]\<rparr>
          [''!roomA'', ''!roomB'']
          (\<lambda>req :: unit. Inr (''issue'', ''octocat/Hello-World'', ''opened''))
          (\<lambda>(cli :: unit) roomID evType msg.
             (if roomID = ''!roomA'' then Some (RemoteError ''M_FORBIDDEN'') else None, cli))
          () ())) =
     [LogSendFailed (RemoteError ''M_FORBIDDEN'') ''!roomA'']"
  using delivery_failure_isolated
    [of "\<lambda>req :: unit. Inr (''issue'', ''octocat/Hello-World'', ''opened'')" "()"
      "''issue''" "''octocat/Hello-World''" "''opened''"
      "\<lambda>(cli :: unit) roomID evType (msg :: string). (None :: error option, cli)"
      "\<lparr>id' = ''github'', UserID = ''@github:example.org'',
        Rooms = [''!roomA'' \<mapsto> [''issue''], ''!roomB'' \<mapsto> [''push'', ''issue'']]\<rparr>"
      "[''!roomA'', ''!roomB'']"
      "\<lambda>(cli :: unit) roomID evType msg.
             (if roomID = ''!roomA'' then Some (RemoteError ''M_FORBIDDEN'') else None, cli)"
      "()" "()"]
  by (simp add: OnReceiveWebhook_def)


text \<open>
  C3. When the decoder succeeds the status written is 200, whatever the deliveries do; when
  it fails, the status is the decoder's code, nothing is delivered and the client is not
  used.
\<close>

theorem response_status:
  "(OnReceiveRequest req = Inr ev \<longrightarrow>
      status (OnReceiveWebhook s order OnReceiveRequest send req cli) = 200) \<and>
   (OnReceiveRequest req = Inl err \<longrightarrow>
      status (OnReceiveWebhook s order OnReceiveRequest send req cli) = Code err \<and>
      trace (OnReceiveWebhook s order OnReceiveRequest send req cli) = [] \<and>
      client (OnReceiveWebhook s order OnReceiveRequest send req cli) = cli)"
  by (simp add: OnReceiveWebhook_def split: prod.splits)



theorem response_status_witness:
  "status (OnReceiveWebhook
          \<lparr>id' = ''github'', UserID = ''@github:example.org'',
           Rooms = [''!roomA'' \<mapsto> [''issue''], ''!roomB'' \<mapsto> [''push'', ''issue'']]\<rparr>
          [''!roomA'', ''!roomB'']
          (\<lambda>req :: unit. Inr (''issue'', ''octocat/Hello-World'', ''opened''))
          (\<lambda>(cli :: unit) roomID evType msg. (Some (RemoteError ''M_FORBIDDEN''), cli))
          () ()) = 200 \<and>
   status (OnReceiveWebhook
          \<lparr>id' = ''github'', UserID = ''@github:example.org'',
           Rooms = [''!roomA'' \<mapsto> [''issue''], ''!roomB'' \<mapsto> [''push'', ''issue'']]\<rparr>
          [''!roomA'', ''!roomB'']
          (\<lambda>req :: unit. Inl \<lparr>Code = 400\<rparr> :: HTTPError + string \<times> string \<times> string)
          (\<lambda>(cli :: unit) roomID evType msg. (None, cli))
          () ()) = 400 \<and>
   trace (OnReceiveWebhook
          \<lparr>id' = ''github'', UserID = ''@github:example.org'',
           Rooms = [''!roomA'' \<mapsto> [''issue''], ''!roomB'' \<mapsto> [''push'', ''issue'']]\<rparr>
          [''!roomA'', ''!roomB'']
          (\<lambda>req :: unit. Inl \<lparr>Code = 400\<rparr> :: HTTPError + string \<times> string \<times> string)
          (\<lambda>(cli :: unit) roomID evType msg. (None, cli))
          () ()) = []"
  using response_status
    [of "\<lambda>req :: unit. Inr (''issue'', ''octocat/Hello-World'', ''opened'')" "()"
      "(''issue'', ''octocat/Hello-World'', ''opened'')"
      "\<lparr>id' = ''github'', UserID = ''@github:example.org'',
        Rooms = [''!roomA'' \<mapsto> [''issue''], ''!roomB'' \<mapsto> [''push'', ''issue'']]\<rparr>"
      "[''!roomA'', ''!roomB'']"
      "\<lambda>(cli :: unit) roomID evType msg. (Some (RemoteError ''M_FORBIDDEN''), cli)" "()"]
    response_status
    [of "\<lambda>req :: unit. Inl \<lparr>Code = 400\<rparr> :: HTTPError + string \<times> string \<times> string" "()" _
      "\<lparr>id' = ''github'', UserID = ''@github:example.org'',
        Rooms = [''!roomA'' \<mapsto> [''issue''], ''!roomB'' \<mapsto> [''push'', ''issue'']]\<rparr>"
      "[''!roomA'', ''!roomB'']"
      "\<lambda>(cli :: unit) roomID evType msg. (None, cli)" "()" "\<lparr>Code = 400\<rparr>"]
  by simp


text \<open>
  C8. Only the set of a room's event types matters. If two tables give every room the same
  set of types (the lists may differ in order and in repetitions), the handler does the
  same on both under the same iteration order, and delivers to the same rooms under any
  two iteration orders; and no room gets more than one delivery call for one event.
\<close>

theorem event_type_list_is_a_set:
  assumes "\<forall>r. map_option set (Rooms s r) = map_option set (Rooms s' r)"
    and "range_order (Rooms s) order"
    and "range_order (Rooms s') order'"
  shows "OnReceiveWebhook s order OnReceiveRequest send req cli =
           OnReceiveWebhook s' order OnReceiveRequest send req cli \<and>
         set (deliveries (trace (OnReceiveWebhook s order OnReceiveRequest send req cli))) =
           set (deliveries (trace (OnReceiveWebhook s' order' OnReceiveRequest send req cli))) \<and>
         distinct (map fst (deliveries (trace (OnReceiveWebhook s order OnReceiveRequest send req cli))))"
proof (cases "OnReceiveRequest req")
  case (Inl err)
  then show ?thesis
    by (simp add: OnReceiveWebhook_def)
next
  case (Inr ev)
  obtain evType repo msg where ev: "ev = (evType, repo, msg)" by (cases ev)
  have dec: "OnReceiveRequest req = Inr (evType, repo, msg)" using Inr ev by simp
  have same: "OnReceiveWebhook s order OnReceiveRequest send req cli =
           OnReceiveWebhook s' order OnReceiveRequest send req cli"
    using dec notify_rooms_range_map_cong [OF assms(1), of send evType repo msg order cli]
    by (simp add: OnReceiveWebhook_def)
  have sets: "set (deliveries (trace (OnReceiveWebhook s order OnReceiveRequest send req cli))) =
           set (deliveries (trace (OnReceiveWebhook s' order' OnReceiveRequest send req cli)))"
    unfolding set_deliveries_decoded [of OnReceiveRequest req, OF dec assms(2)]
      set_deliveries_decoded [of OnReceiveRequest req, OF dec assms(3)]
    using same_sets_same_subscribers [OF assms(1)] by simp
  have "distinct (map fst (range_map (Rooms s) order))"
    using assms(2) by (simp add: range_order_def distinct_range_map)
  then have "distinct (map fst (filter (\<lambda>(roomID, notif). evType \<in> set notif) (range_map (Rooms s) order)))"
    by (rule distinct_map_filter)
  moreover have "map fst (deliveries (trace (OnReceiveWebhook s order OnReceiveRequest send req cli))) =
      map fst (filter (\<lambda>(roomID, notif). evType \<in> set notif) (range_map (Rooms s) order))"
    by (simp add: trace_decoded [of OnReceiveRequest req, OF dec] deliveries_notify_rooms
        case_prod_unfold comp_def)
  ultimately have "distinct (map fst (deliveries (trace (OnReceiveWebhook s order OnReceiveRequest send req cli))))"
    by simp
  with same sets show ?thesis by simp
qed


theorem event_type_list_is_a_set_witness:
  "(\<forall>r. map_option set
          (Rooms \<lparr>id' = ''github'', UserID = ''@github:example.org'',
                  Rooms = [''!roomA'' \<mapsto> [''issue'', ''push'', ''issue'']]\<rparr> r) =
        map_option set
          (Rooms \<lparr>id' = ''github'', UserID = ''@github:example.org'',
                  Rooms = [''!roomA'' \<mapsto> [''push'', ''issue'']]\<rparr> r)) \<and>
   range_order
     (Rooms \<lparr>id' = ''github'', UserID = ''@github:example.org'',
             Rooms = [''!roomA'' \<mapsto> [''issue'', ''push'', ''issue'']]\<rparr>) [''!roomA''] \<and>
   range_order
     (Rooms \<lparr>id' = ''github'', UserID = ''@github:example.org'',
             Rooms = [''!roomA'' \<mapsto> [''push'', ''issue'']]\<rparr>) [''!roomA''] \<and>
   OnReceiveWebhook
       \<lparr>id' = ''github'', UserID = ''@github:example.org'',
        Rooms = [''!roomA'' \<mapsto> [''issue'', ''push'', ''issue'']]\<rparr> [''!roomA'']
       (\<lambda>req :: unit. Inr (''issue'', ''octocat/Hello-World'', ''opened''))
       (\<lambda>(cli :: unit) roomID evType msg. (None, cli)) () () =
     OnReceiveWebhook
       \<lparr>id' = ''github'', UserID = ''@github:example.org'',
        Rooms = [''!roomA'' \<mapsto> [''push'', ''issue'']]\<rparr> [''!roomA'']
       (\<lambda>req :: unit. Inr (''issue'', ''octocat/Hello-World'', ''opened''))
       (\<lambda>(cli :: unit) roomID evType msg. (None, cli)) () () \<and>
   deliveries (trace (OnReceiveWebhook
       \<lparr>id' = ''github'', UserID = ''@github:example.org'',
        Rooms = [''!roomA'' \<mapsto> [''issue'', ''push'', ''issue'']]\<rparr> [''!roomA'']
       (\<lambda>req :: unit. Inr (''issue'', ''octocat/Hello-World'', ''opened''))
       (\<lambda>(cli :: unit) roomID evType msg. (None, cli)) () ())) =
     [(''!roomA'', ''m.room.message'', ''opened'')]"
proof -
  have sets: "\<forall>r. map_option set
          (Rooms \<lparr>id' = ''github'', UserID = ''@github:example.org'',
                  Rooms = [''!roomA'' \<mapsto> [''issue'', ''push'', ''issue'']]\<rparr> r) =
        map_option set
          (Rooms \<lparr>id' = ''github'', UserID = ''@github:example.org'',
                  Rooms = [''!roomA'' \<mapsto> [''push'', ''issue'']]\<rparr> r)"
    by auto
  have ro: "range_order
     (Rooms \<lparr>id' = ''github'', UserID = ''@github:example.org'',
             Rooms = [''!roomA'' \<mapsto> [''issue'', ''push'', ''issue'']]\<rparr>) [''!roomA'']"
    by (simp add: range_order_def)
  have ro': "range_order
     (Rooms \<lparr>id' = ''github'', UserID = ''@github:example.org'',
             Rooms = [''!roomA'' \<mapsto> [''push'', ''issue'']]\<rparr>) [''!roomA'']"
    by (simp add: range_order_def)
  have "OnReceiveWebhook
       \<lparr>id' = ''github'', UserID = ''@github:example.org'',
        Rooms = [''!roomA'' \<mapsto> [''issue'', ''push'', ''issue'']]\<rparr> [''!roomA'']
       (\<lambda>req :: unit. Inr (''issue'', ''octocat/Hello-World'', ''opened''))
       (\<lambda>(cli :: unit) roomID evType msg. (None, cli)) () () =
     OnReceiveWebhook
       \<lparr>id' = ''github'', UserID = ''@github:example.org'',
        Rooms = [''!roomA'' \<mapsto> [''push'', ''issue'']]\<rparr> [''!roomA'']
       (\<lambda>req :: unit. Inr (''issue'', ''octocat/Hello-World'', ''opened''))
       (\<lambda>(cli :: unit) roomID evType msg. (None, cli)) () ()"
    using event_type_list_is_a_set [OF sets ro ro',
        of "\<lambda>req :: unit. Inr (''issue'', ''octocat/Hello-World'', ''opened'')"
          "\<lambda>(cli :: unit) roomID evType msg. (None, cli)" "()" "()"]
    by simp
  moreover have "deliveries (trace (OnReceiveWebhook
       \<lparr>id' = ''github'', UserID = ''@github:example.org'',
        Rooms = [''!roomA'' \<mapsto> [''issue'', ''push'', ''issue'']]\<rparr> [''!roomA'']
       (\<lambda>req :: unit. Inr (''issue'', ''octocat/Hello-World'', ''opened''))
       (\<lambda>(cli :: unit) roomID evType msg. (None, cli)) () ())) =
     [(''!roomA'', ''m.room.message'', ''opened'')]"
    by (simp add: OnReceiveWebhook_def)
  ultimately show ?thesis
    using sets ro ro' by blast
qed


end
